theory Spec2Isabelle
  imports Complex_Main
begin

section \<open>The menu pipeline of lesson12-async.py\<close>

text \<open>
  The theory embeds the asynchronous two-agent pipeline of \<^verbatim>\<open>src/lesson12-async.py\<close>:
  the pydantic models, \<^verbatim>\<open>get_media_type\<close>, \<^verbatim>\<open>initialize_csv\<close>, \<^verbatim>\<open>append_to_csv\<close>,
  the stages of \<^verbatim>\<open>process_image\<close> (with the deduplication loop written inside it) and
  the startup and initial sweep of \<^verbatim>\<open>main\<close>.

  Conventions of the model.
  \<^item> A Python \<^verbatim>\<open>str\<close> is a \<open>string\<close>; every \<open>char\<close> stands for the Unicode code
    point of the same number, so the model speaks about strings over U+0000..U+00FF.
  \<^item> A Python \<^verbatim>\<open>float\<close> is a \<open>real\<close>: only the test against zero and equality are
    used, never float arithmetic or formatting.
  \<^item> A \<^verbatim>\<open>Path\<close> below the watched folder is identified with its final component.
  \<^item> An exception is a value of type \<open>exn\<close>; a call that may raise returns \<open>exn + 'a\<close>.
\<close>

subsection \<open>Python string methods\<close>

text \<open>\<^verbatim>\<open>str.isspace\<close> of one character, for the code points below 256.\<close>

definition py_isspace :: "char \<Rightarrow> bool" where
  "py_isspace c =
     (let n = (of_char c :: nat)
      in (9 \<le> n \<and> n \<le> 13) \<or> (28 \<le> n \<and> n \<le> 32) \<or> n = 133 \<or> n = 160)"

text \<open>\<^verbatim>\<open>str.strip()\<close>: leading and trailing whitespace removed.\<close>

definition strip :: "string \<Rightarrow> string" where
  "strip s = rev (dropWhile py_isspace (rev (dropWhile py_isspace s)))"

text \<open>
  \<^verbatim>\<open>str.lower()\<close>: A--Z and the upper-case letters of U+00C0..U+00DE (the
  multiplication sign U+00D7 apart) move up by 32, everything else stays.
\<close>

definition lower_char :: "char \<Rightarrow> char" where
  "lower_char c =
     (let n = (of_char c :: nat)
      in if (65 \<le> n \<and> n \<le> 90) \<or> (192 \<le> n \<and> n \<le> 222 \<and> n \<noteq> 215)
         then char_of (n + 32) else c)"

definition lower :: "string \<Rightarrow> string" where
  "lower s = map lower_char s"

text \<open>\<^verbatim>\<open>sep.join(parts)\<close>.\<close>

fun join :: "string \<Rightarrow> string list \<Rightarrow> string" where
  "join sep [] = []"
| "join sep [p] = p"
| "join sep (p # q # ps) = p @ sep @ join sep (q # ps)"

text \<open>\<^verbatim>\<open>s.rfind(c)\<close> for a single character: the last index of \<open>c\<close>, \<open>None\<close> for -1.\<close>

fun rfind :: "char \<Rightarrow> string \<Rightarrow> nat option" where
  "rfind c [] = None"
| "rfind c (x # xs) =
     (case rfind c xs of
        Some i \<Rightarrow> Some (Suc i)
      | None \<Rightarrow> if x = c then Some 0 else None)"

text \<open>
  \<^verbatim>\<open>PurePath.suffix\<close> on the final component: with \<^verbatim>\<open>i = name.rfind('.')\<close> it is
  \<^verbatim>\<open>name[i:]\<close> if \<^verbatim>\<open>0 < i < len(name) - 1\<close> and the empty string otherwise.
\<close>

definition suffix :: "string \<Rightarrow> string" where
  "suffix name =
     (case rfind CHR ''.'' name of
        None \<Rightarrow> []
      | Some i \<Rightarrow> if 0 < i \<and> int i < int (length name) - 1 then drop i name else [])"

subsection \<open>Data model\<close>

record MenuItem =
  dish_name :: string
  price :: real
  currency :: string
  category :: string
  dietary_tags :: "string list"
  portion_size :: "string option"
  is_daily_special :: bool

record MenuExtraction =
  restaurant_name :: string
  items :: "MenuItem list"

record RestaurantEnrichment =
  google_rating :: "real option"
  address :: string
  cuisine_type :: string

record EnrichedMenuExtraction =
  restaurant_name :: string
  cuisine_type :: string
  google_rating :: "real option"
  address :: string
  items :: "MenuItem list"

subsection \<open>Configuration\<close>

definition CSV_OUTPUT :: string where
  "CSV_OUTPUT = ''menus-async.csv''"

definition WATCH_FOLDER :: string where
  "WATCH_FOLDER = ''images_watchfolder''"

definition IMAGE_EXTENSIONS :: "string set" where
  "IMAGE_EXTENSIONS = {''.png'', ''.jpg'', ''.jpeg'', ''.gif'', ''.webp''}"

subsection \<open>get_media_type\<close>

definition media_types :: "(string \<times> string) list" where
  "media_types =
     [(''.png'', ''image/png''),
      (''.jpg'', ''image/jpeg''),
      (''.jpeg'', ''image/jpeg''),
      (''.gif'', ''image/gif''),
      (''.webp'', ''image/webp'')]"

text \<open>\<^verbatim>\<open>media_types.get(suffix, 'image/jpeg')\<close> on the lower-cased suffix.\<close>

definition get_media_type :: "string \<Rightarrow> string" where
  "get_media_type filepath =
     (let sfx = lower (suffix filepath)
      in case map_of media_types sfx of
           Some m \<Rightarrow> m
         | None \<Rightarrow> ''image/jpeg'')"

subsection \<open>Deduplication (the loop inside process_image)\<close>

text \<open>
  A Python \<^verbatim>\<open>dict\<close> keeps its keys in insertion order, and \<^verbatim>\<open>list(d.values())\<close>
  returns the values in that order: the dict is an association list with distinct keys.
\<close>

type_synonym 'v pydict = "(string \<times> 'v) list"

definition dict_contains :: "'v pydict \<Rightarrow> string \<Rightarrow> bool" where
  "dict_contains d k = (k \<in> set (map fst d))"

text \<open>\<^verbatim>\<open>d[k] = v\<close>: an existing key keeps its position, a new key goes to the end.\<close>

fun dict_setitem :: "'v pydict \<Rightarrow> string \<Rightarrow> 'v \<Rightarrow> 'v pydict" where
  "dict_setitem [] k v = [(k, v)]"
| "dict_setitem ((k', v') # d) k v =
     (if k' = k then (k, v) # d else (k', v') # dict_setitem d k v)"

definition dict_values :: "'v pydict \<Rightarrow> 'v list" where
  "dict_values d = map snd d"

text \<open>\<^verbatim>\<open>item.dish_name.strip().lower()\<close>.\<close>

definition item_key :: "MenuItem \<Rightarrow> string" where
  "item_key item = lower (strip (dish_name item))"

text \<open>The \<^verbatim>\<open>for item in extraction_result.output.items\<close> loop, on the dict built so far.\<close>

fun dedup_loop :: "MenuItem list \<Rightarrow> MenuItem pydict \<Rightarrow> MenuItem pydict" where
  "dedup_loop [] unique_items = unique_items"
| "dedup_loop (item # rest) unique_items =
     (if \<not> dict_contains unique_items (item_key item)
      then dedup_loop rest (dict_setitem unique_items (item_key item) item)
      else dedup_loop rest unique_items)"

definition dedup :: "MenuItem list \<Rightarrow> MenuItem list" where
  "dedup its = dict_values (dedup_loop its [])"

text \<open>
  The deduplicator as the specification words it: the item at position \<open>i\<close> is retained
  exactly when no earlier position carries the same trimmed, lower-cased dish name, and
  the retained items are returned in input order.
\<close>

definition dedup_spec :: "MenuItem list \<Rightarrow> MenuItem list" where
  "dedup_spec its =
     map (\<lambda>i. its ! i)
       (filter (\<lambda>i. \<forall>j \<in> set [0..<i]. item_key (its ! j) \<noteq> item_key (its ! i))
          [0..<length its])"

subsection \<open>The world outside the program\<close>

text \<open>
  Any exception a collaborator raises is an \<open>exn\<close>; \<open>Exception msg\<close> stands for an
  instance of whatever subclass of \<^verbatim>\<open>Exception\<close> the agents or the file system raise.
  What is no \<^verbatim>\<open>Exception\<close> (a keyboard interrupt, a cancellation) is outside the model.
\<close>

datatype exn = FileNotFoundError string | NotADirectoryError string | Exception string

text \<open>
  What the file system holds at a path: nothing, a regular file, or a directory, with
  the names of its entries or the error that listing it raises.
\<close>

datatype fs_entry = Missing | Regular_file | Directory "exn + string list"

text \<open>\<^verbatim>\<open>Path.exists()\<close>: true of a file as well as of a directory.\<close>

definition path_exists :: "fs_entry \<Rightarrow> bool" where
  "path_exists entry = (entry \<noteq> Missing)"

text \<open>
  \<^verbatim>\<open>Path.iterdir()\<close>, consumed by the list comprehension of \<^verbatim>\<open>main\<close>: the names of the
  entries of a directory; on anything else the operating system's error.
\<close>

fun path_iterdir :: "string \<Rightarrow> fs_entry \<Rightarrow> exn + string list" where
  "path_iterdir path Missing =
     Inl (FileNotFoundError
            (''[Errno 2] No such file or directory: '' @ [CHR 0x27] @ path @ [CHR 0x27]))"
| "path_iterdir path Regular_file =
     Inl (NotADirectoryError
            (''[Errno 20] Not a directory: '' @ [CHR 0x27] @ path @ [CHR 0x27]))"
| "path_iterdir path (Directory listing) = listing"

text \<open>
  The values handed to \<^verbatim>\<open>csv.writer.writerow\<close>: strings and floats. The store is kept
  as the list of records written, each record the list of its cells, so the quoting and
  the float formatting of the csv module stay outside.
\<close>

datatype cell = Str string | Float real

type_synonym row = "cell list"

text \<open>One constructor for each \<^verbatim>\<open>print\<close> statement, with the values it interpolates.\<close>

datatype out_line =
    Created string
  | Saved_to string
  | Searching_web string
  | Restaurant_line string
  | Rating_line "real option"
  | Address_line string
  | Cuisine_line string
  | Processing string
  | Agent1_extracting
  | Agent2_enriching string
  | Item_line string real string "string list"
  | Error_processing string exn
  | Watching_folder string
  | Processing_existing nat

text \<open>
  The mutable world: the file \<^verbatim>\<open>menus-async.csv\<close> (\<open>None\<close> while it does not exist),
  the console, the image files opened so far and the number of clock readings taken.
\<close>

record world =
  csv_file :: "row list option"
  stdout :: "out_line list"
  files_read :: "string list"
  clock_reads :: nat

text \<open>
  What the program is given: what the file system holds at the watched path, the bytes
  of each file (or the error of reading it), the answer of each agent to a request (or
  the error it raises), the clock, and the order in which the event loop resumes the
  pipelines of the initial sweep. Within one run an agent answers equal requests alike.
\<close>

record env =
  watch_folder :: fs_entry
  read_bytes :: "string \<Rightarrow> exn + string"
  extraction_agent_run :: "string \<Rightarrow> string \<Rightarrow> exn + MenuExtraction"
  enrichment_agent_run :: "string \<Rightarrow> exn + RestaurantEnrichment"
  now_isoformat :: "nat \<Rightarrow> string"
  schedule :: "nat list"

definition print :: "out_line \<Rightarrow> world \<Rightarrow> world" where
  "print l w = w\<lparr>stdout := stdout w @ [l]\<rparr>"

subsection \<open>initialize_csv and append_to_csv\<close>

definition header :: row where
  "header =
     [Str ''timestamp'', Str ''source_image'', Str ''restaurant_name'', Str ''dish_name'',
      Str ''price'', Str ''category'', Str ''dietary_tags'', Str ''cuisine_type'',
      Str ''google_rating'', Str ''address'']"

definition initialize_csv :: "world \<Rightarrow> world" where
  "initialize_csv w =
     (if csv_file w = None
      then print (Created CSV_OUTPUT) (w\<lparr>csv_file := Some [header]\<rparr>)
      else w)"

text \<open>
  \<^verbatim>\<open>extraction.google_rating or ''\<close>: Python's \<^verbatim>\<open>or\<close> yields its right operand when the
  left one is falsy, and both \<^verbatim>\<open>None\<close> and the float zero are falsy.
\<close>

definition rating_or_empty :: "real option \<Rightarrow> cell" where
  "rating_or_empty r =
     (case r of
        None \<Rightarrow> Str []
      | Some x \<Rightarrow> if x = 0 then Str [] else Float x)"

text \<open>The list passed to \<^verbatim>\<open>writer.writerow\<close> for one item.\<close>

definition csv_row :: "string \<Rightarrow> string \<Rightarrow> EnrichedMenuExtraction \<Rightarrow> MenuItem \<Rightarrow> row" where
  "csv_row timestamp source_image extraction item =
     [Str timestamp,
      Str source_image,
      Str (EnrichedMenuExtraction.restaurant_name extraction),
      Str (dish_name item),
      Float (price item),
      Str (category item),
      Str (if dietary_tags item \<noteq> [] then join '';'' (dietary_tags item) else []),
      Str (EnrichedMenuExtraction.cuisine_type extraction),
      rating_or_empty (EnrichedMenuExtraction.google_rating extraction),
      Str (EnrichedMenuExtraction.address extraction)]"

text \<open>The \<^verbatim>\<open>for item in extraction.items\<close> loop over the open file.\<close>

fun write_items ::
  "string \<Rightarrow> string \<Rightarrow> EnrichedMenuExtraction \<Rightarrow> MenuItem list \<Rightarrow> row list \<Rightarrow> row list" where
  "write_items timestamp source_image extraction [] f = f"
| "write_items timestamp source_image extraction (item # rest) f =
     write_items timestamp source_image extraction rest
       (f @ [csv_row timestamp source_image extraction item])"

text \<open>Opening in mode \<^verbatim>\<open>'a'\<close> creates a missing file, empty.\<close>

definition append_to_csv :: "env \<Rightarrow> string \<Rightarrow> EnrichedMenuExtraction \<Rightarrow> world \<Rightarrow> world" where
  "append_to_csv e source_image extraction w =
     (let timestamp = now_isoformat e (clock_reads w);
          f = (case csv_file w of None \<Rightarrow> [] | Some rows \<Rightarrow> rows);
          f' = write_items timestamp source_image extraction
                 (EnrichedMenuExtraction.items extraction) f
      in print (Saved_to CSV_OUTPUT)
           (w\<lparr>csv_file := Some f', clock_reads := Suc (clock_reads w)\<rparr>))"

subsection \<open>enrich_restaurant and process_image\<close>

definition enrichment_prompt :: "string \<Rightarrow> string" where
  "enrichment_prompt rname =
     ''Find the Google rating, address, and cuisine type for the restaurant: ''
       @ rname @ '' in Tampere, Finland''"

definition enrich_restaurant ::
  "env \<Rightarrow> string \<Rightarrow> world \<Rightarrow> (exn + RestaurantEnrichment) \<times> world" where
  "enrich_restaurant e rname w =
     (let w1 = print (Searching_web rname) w
      in case enrichment_agent_run e (enrichment_prompt rname) of
           Inl ex \<Rightarrow> (Inl ex, w1)
         | Inr output \<Rightarrow>
             (Inr output,
              print (Cuisine_line (RestaurantEnrichment.cuisine_type output))
                (print (Address_line (RestaurantEnrichment.address output))
                  (print (Rating_line (RestaurantEnrichment.google_rating output))
                    (print (Restaurant_line rname) w1)))))"

fun print_items :: "MenuItem list \<Rightarrow> world \<Rightarrow> world" where
  "print_items [] w = w"
| "print_items (item # rest) w =
     print_items rest
       (print (Item_line (dish_name item) (price item) (category item) (dietary_tags item)) w)"

definition enriched_extraction_of ::
  "string \<Rightarrow> RestaurantEnrichment \<Rightarrow> MenuItem list \<Rightarrow> EnrichedMenuExtraction" where
  "enriched_extraction_of rname enrichment deduplicated_items =
     \<lparr>EnrichedMenuExtraction.restaurant_name = rname,
      cuisine_type = RestaurantEnrichment.cuisine_type enrichment,
      google_rating = RestaurantEnrichment.google_rating enrichment,
      address = RestaurantEnrichment.address enrichment,
      items = deduplicated_items\<rparr>"

text \<open>
  \<^verbatim>\<open>process_image\<close> run on its own, from the first line to the last. Every exception
  raised inside the \<^verbatim>\<open>try\<close> block ends in the \<^verbatim>\<open>except Exception\<close> handler, which
  prints and returns: the function has no error result.
\<close>

definition process_image :: "env \<Rightarrow> string \<Rightarrow> world \<Rightarrow> world" where
  "process_image e image_path w =
     (if lower (suffix image_path) \<notin> IMAGE_EXTENSIONS then w
      else
        let w1 = print (Processing image_path) w;
            w2 = w1\<lparr>files_read := files_read w1 @ [image_path]\<rparr>
        in case read_bytes e image_path of
             Inl ex \<Rightarrow> print (Error_processing image_path ex) w2
           | Inr image_data \<Rightarrow>
              (let media_type = get_media_type image_path;
                   w3 = print Agent1_extracting w2
               in case extraction_agent_run e image_data media_type of
                    Inl ex \<Rightarrow> print (Error_processing image_path ex) w3
                  | Inr output \<Rightarrow>
                     (let rname = MenuExtraction.restaurant_name output;
                          deduplicated_items = dedup (MenuExtraction.items output);
                          w4 = print (Agent2_enriching rname) w3
                      in case enrich_restaurant e rname w4 of
                           (Inl ex, w5) \<Rightarrow> print (Error_processing image_path ex) w5
                         | (Inr enrichment, w5) \<Rightarrow>
                            (let enriched_extraction =
                                   enriched_extraction_of rname enrichment
                                     deduplicated_items
                             in append_to_csv e image_path enriched_extraction
                                  (print_items
                                     (EnrichedMenuExtraction.items enriched_extraction)
                                     w5)))))"

subsection \<open>The pipelines of the initial sweep, between their suspension points\<close>

text \<open>
  \<^verbatim>\<open>asyncio.gather\<close> runs the coroutines of \<^verbatim>\<open>process_image\<close> on one event loop: a
  coroutine runs alone from one \<^verbatim>\<open>await\<close> that suspends it to the next, and the loop
  chooses which suspended coroutine to resume. A \<open>task\<close> is a coroutine at one of its
  suspension points, with the local variables that are live there:
  not yet started, in \<^verbatim>\<open>asyncio.sleep(0.5)\<close>, in \<^verbatim>\<open>extraction_agent.run\<close> (image name,
  bytes, media type), in \<^verbatim>\<open>enrichment_agent.run\<close> (image name, restaurant name,
  deduplicated items), or returned.
\<close>

datatype task =
    Start string
  | Sleeping string
  | Extracting string string string
  | Enriching string string "MenuItem list"
  | Finished

text \<open>One resumption: the code of \<^verbatim>\<open>process_image\<close> up to the next suspension.\<close>

fun task_step :: "env \<Rightarrow> task \<Rightarrow> world \<Rightarrow> task \<times> world" where
  "task_step e (Start image_path) w =
     (if lower (suffix image_path) \<notin> IMAGE_EXTENSIONS then (Finished, w)
      else (Sleeping image_path, print (Processing image_path) w))"
| "task_step e (Sleeping image_path) w =
     (let w2 = w\<lparr>files_read := files_read w @ [image_path]\<rparr>
      in case read_bytes e image_path of
           Inl ex \<Rightarrow> (Finished, print (Error_processing image_path ex) w2)
         | Inr image_data \<Rightarrow>
             (Extracting image_path image_data (get_media_type image_path),
              print Agent1_extracting w2))"
| "task_step e (Extracting image_path image_data media_type) w =
     (case extraction_agent_run e image_data media_type of
        Inl ex \<Rightarrow> (Finished, print (Error_processing image_path ex) w)
      | Inr output \<Rightarrow>
         (let rname = MenuExtraction.restaurant_name output;
              deduplicated_items = dedup (MenuExtraction.items output)
          in (Enriching image_path rname deduplicated_items,
              print (Searching_web rname) (print (Agent2_enriching rname) w))))"
| "task_step e (Enriching image_path rname deduplicated_items) w =
     (case enrichment_agent_run e (enrichment_prompt rname) of
        Inl ex \<Rightarrow> (Finished, print (Error_processing image_path ex) w)
      | Inr output \<Rightarrow>
         (let w5 = print (Cuisine_line (RestaurantEnrichment.cuisine_type output))
                     (print (Address_line (RestaurantEnrichment.address output))
                       (print (Rating_line (RestaurantEnrichment.google_rating output))
                         (print (Restaurant_line rname) w)));
              enriched_extraction = enriched_extraction_of rname output deduplicated_items
          in (Finished,
              append_to_csv e image_path enriched_extraction
                (print_items (EnrichedMenuExtraction.items enriched_extraction) w5))))"
| "task_step e Finished w = (Finished, w)"

text \<open>
  The event loop resumes the task at position \<open>i\<close> for each \<open>i\<close> of a list of choices;
  a choice that names no task, or a task that has returned, changes nothing.
\<close>

fun run_schedule :: "env \<Rightarrow> nat list \<Rightarrow> task list \<Rightarrow> world \<Rightarrow> task list \<times> world" where
  "run_schedule e [] ts w = (ts, w)"
| "run_schedule e (i # sched) ts w =
     (if i < length ts
      then (case task_step e (ts ! i) w of
              (t', w') \<Rightarrow> run_schedule e sched (ts[i := t']) w')
      else run_schedule e sched ts w)"

text \<open>
  \<^verbatim>\<open>await asyncio.gather(*[process_image(p) for p in existing_images])\<close>: the loop
  resumes the coroutines in the order \<open>sched\<close> that the latencies of the world decide,
  and \<^verbatim>\<open>gather\<close> returns once every coroutine has returned. A coroutine returns after
  at most four resumptions, so four more rounds over all of them complete whatever
  \<open>sched\<close> has left pending.
\<close>

definition gather_tasks :: "env \<Rightarrow> nat list \<Rightarrow> string list \<Rightarrow> world \<Rightarrow> task list \<times> world" where
  "gather_tasks e sched images w =
     run_schedule e (sched @ concat (replicate 4 [0..<length images])) (map Start images) w"

definition gather :: "env \<Rightarrow> nat list \<Rightarrow> string list \<Rightarrow> world \<Rightarrow> world" where
  "gather e sched images w = snd (gather_tasks e sched images w)"

subsection \<open>main, up to the end of the initial sweep\<close>

text \<open>
  The result is the exception that leaves \<^verbatim>\<open>main\<close>, or nothing, with the world as
  \<^verbatim>\<open>main\<close> left it. The guard of the first line asks whether the path exists, not
  whether it is a directory; an error of \<^verbatim>\<open>iterdir\<close> is caught nowhere and leaves
  \<^verbatim>\<open>main\<close> after the store has been initialised. The observer and the idle loop that
  follow the sweep are not part of the model.
\<close>

definition main :: "env \<Rightarrow> world \<Rightarrow> (exn + unit) \<times> world" where
  "main e w =
     (if \<not> path_exists (watch_folder e)
      then (Inl (FileNotFoundError
                   (''Folder '' @ [CHR 0x27] @ WATCH_FOLDER @ [CHR 0x27] @ '' not found'')), w)
      else
        let w1 = print (Watching_folder WATCH_FOLDER) w;
            w2 = initialize_csv w1
        in case path_iterdir WATCH_FOLDER (watch_folder e) of
             Inl ex \<Rightarrow> (Inl ex, w2)
           | Inr entries \<Rightarrow>
              (let existing_images =
                     filter (\<lambda>f. lower (suffix f) \<in> IMAGE_EXTENSIONS) entries;
                   w3 = (if existing_images \<noteq> []
                         then gather e (schedule e) existing_images
                                (print (Processing_existing (length existing_images)) w2)
                         else w2)
               in (Inr (), w3)))"

subsection \<open>Constructing a MenuItem\<close>

text \<open>
  \<^verbatim>\<open>MenuItem(dish_name=d, price=p, category=c)\<close>: the fields left out take the defaults
  of the class.
\<close>

definition menu_item :: "string \<Rightarrow> real \<Rightarrow> string \<Rightarrow> MenuItem" where
  "menu_item d p c =
     \<lparr>dish_name = d, price = p, currency = ''EUR'', category = c, dietary_tags = [],
      portion_size = None, is_daily_special = False\<rparr>"

subsection \<open>Reading the store\<close>

text \<open>The records in the store file; a missing file holds none.\<close>

definition store_rows :: "world \<Rightarrow> row list" where
  "store_rows w = (case csv_file w of None \<Rightarrow> [] | Some rows \<Rightarrow> rows)"

text \<open>The records of \<open>w'\<close> behind those that \<open>w\<close> already had.\<close>

definition new_rows :: "world \<Rightarrow> world \<Rightarrow> row list" where
  "new_rows w w' = drop (length (store_rows w)) (store_rows w')"

text \<open>The cell of a record under a column of the header.\<close>

definition column :: "string \<Rightarrow> row \<Rightarrow> cell option" where
  "column name r = map_of (zip header r) (Str name)"

text \<open>An upper bound on the resumptions a task still needs before it returns.\<close>

fun resumptions_left :: "task \<Rightarrow> nat" where
  "resumptions_left (Start image_path) = 4"
| "resumptions_left (Sleeping image_path) = 3"
| "resumptions_left (Extracting image_path image_data media_type) = 2"
| "resumptions_left (Enriching image_path rname deduplicated_items) = 1"
| "resumptions_left Finished = 0"

subsection \<open>A concrete run\<close>

text \<open>
  A watched folder with three entries. The extraction agent reads \<^verbatim>\<open>menu1.png\<close> as the
  menu of Cafe X and fails on every other image; the enrichment agent finds Cafe X.
  The bytes of a file are stood for by its name.
\<close>

definition example_env :: env where
  "example_env =
     \<lparr>watch_folder = Directory (Inr [''broken.png'', ''menu1.png'', ''notes.txt'']),
      read_bytes = (\<lambda>name. Inr name),
      extraction_agent_run =
        (\<lambda>image_data media_type.
           if image_data = ''menu1.png''
           then Inr \<lparr>MenuExtraction.restaurant_name = ''Cafe X'',
                     items = [menu_item ''Coffee'' 3.5 ''Beverage'']\<rparr>
           else Inl (Exception ''timeout'')),
      enrichment_agent_run =
        (\<lambda>prompt. Inr \<lparr>RestaurantEnrichment.google_rating = Some 4.2,
                          address = ''Hameenkatu 1'', cuisine_type = ''Cafe''\<rparr>),
      now_isoformat = (\<lambda>n. ''2026-01-01T12:00:00''),
      schedule = [0, 1, 1, 0, 1]\<rparr>"

definition fresh_world :: world where
  "fresh_world = \<lparr>csv_file = None, stdout = [], files_read = [], clock_reads = 0\<rparr>"

text \<open>An enriched extraction of two items, as \<^verbatim>\<open>process_image\<close> builds it.\<close>

definition cafe_x :: EnrichedMenuExtraction where
  "cafe_x =
     \<lparr>EnrichedMenuExtraction.restaurant_name = ''Cafe X'',
      cuisine_type = ''Cafe'',
      google_rating = Some 4.2,
      address = ''Hameenkatu 1'',
      items = [menu_item ''Coffee'' 3.5 ''Beverage'', menu_item ''Tea'' 3 ''Beverage'']\<rparr>"

section \<open>Media types\<close>

lemma map_of_media_types_cases:
  "map_of media_types s = Some m \<Longrightarrow>
     m = ''image/png'' \<or> m = ''image/jpeg'' \<or> m = ''image/gif'' \<or> m = ''image/webp''"
  by (auto simp: media_types_def split: if_splits)

lemma map_of_media_types_None:
  "s \<notin> {''.png'', ''.jpg'', ''.jpeg'', ''.gif'', ''.webp''} \<Longrightarrow> map_of media_types s = None"
  by (simp add: media_types_def)

text \<open>
  Claim C9. For every file name \<^verbatim>\<open>get_media_type\<close> returns a non-empty MIME string; it
  has no error result and no effect on the world. The extension, compared without regard
  to case, decides the result: \<^verbatim>\<open>.png\<close> gives \<^verbatim>\<open>image/png\<close>, \<^verbatim>\<open>.jpg\<close> and \<^verbatim>\<open>.jpeg\<close> give
  \<^verbatim>\<open>image/jpeg\<close>, \<^verbatim>\<open>.gif\<close> gives \<^verbatim>\<open>image/gif\<close>, \<^verbatim>\<open>.webp\<close> gives \<^verbatim>\<open>image/webp\<close>, and every
  other extension, the empty one included, gives \<^verbatim>\<open>image/jpeg\<close>.
\<close>

theorem get_media_type_table:
  "get_media_type filepath \<noteq> [] \<and>
   (lower (suffix filepath) = ''.png'' \<longrightarrow> get_media_type filepath = ''image/png'') \<and>
   (lower (suffix filepath) = ''.jpg'' \<longrightarrow> get_media_type filepath = ''image/jpeg'') \<and>
   (lower (suffix filepath) = ''.jpeg'' \<longrightarrow> get_media_type filepath = ''image/jpeg'') \<and>
   (lower (suffix filepath) = ''.gif'' \<longrightarrow> get_media_type filepath = ''image/gif'') \<and>
   (lower (suffix filepath) = ''.webp'' \<longrightarrow> get_media_type filepath = ''image/webp'') \<and>
   (lower (suffix filepath) \<notin> {''.png'', ''.jpg'', ''.jpeg'', ''.gif'', ''.webp''} \<longrightarrow>
      get_media_type filepath = ''image/jpeg'')"
proof -
  have nonempty: "get_media_type filepath \<noteq> []"
  proof (cases "map_of media_types (lower (suffix filepath))")
    case None
    then show ?thesis by (simp add: get_media_type_def)
  next
    case (Some m)
    from map_of_media_types_cases [OF Some] Some show ?thesis
      by (auto simp: get_media_type_def)
  qed
  have known: "\<And>s. lower (suffix filepath) = s \<Longrightarrow>
      get_media_type filepath = (case map_of media_types s of Some m \<Rightarrow> m | None \<Rightarrow> ''image/jpeg'')"
    by (simp add: get_media_type_def)
  have other: "lower (suffix filepath) \<notin> {''.png'', ''.jpg'', ''.jpeg'', ''.gif'', ''.webp''} \<longrightarrow>
      get_media_type filepath = ''image/jpeg''"
    using map_of_media_types_None [of "lower (suffix filepath)"]
    by (simp add: get_media_type_def)
  show ?thesis
    using nonempty other by (auto simp: known media_types_def)
qed

theorem get_media_type_table_witness:
  "lower (suffix ''menu1.PNG'') = ''.png'' \<and> get_media_type ''menu1.PNG'' = ''image/png'' \<and>
   lower (suffix ''a.b.Jpg'') = ''.jpg'' \<and> get_media_type ''a.b.Jpg'' = ''image/jpeg'' \<and>
   lower (suffix ''x.jpeg'') = ''.jpeg'' \<and> get_media_type ''x.jpeg'' = ''image/jpeg'' \<and>
   lower (suffix ''x.gif'') = ''.gif'' \<and> get_media_type ''x.gif'' = ''image/gif'' \<and>
   lower (suffix ''x.webp'') = ''.webp'' \<and> get_media_type ''x.webp'' = ''image/webp'' \<and>
   lower (suffix ''notes.txt'') \<notin> {''.png'', ''.jpg'', ''.jpeg'', ''.gif'', ''.webp''} \<and>
   get_media_type ''notes.txt'' = ''image/jpeg'' \<and>
   lower (suffix ''.png'') \<notin> {''.png'', ''.jpg'', ''.jpeg'', ''.gif'', ''.webp''} \<and>
   get_media_type ''.png'' = ''image/jpeg''"
proof -
  have h1: "lower (suffix ''menu1.PNG'') = ''.png''" by code_simp
  have h2: "lower (suffix ''a.b.Jpg'') = ''.jpg''" by code_simp
  have h3: "lower (suffix ''x.jpeg'') = ''.jpeg''" by code_simp
  have h4: "lower (suffix ''x.gif'') = ''.gif''" by code_simp
  have h5: "lower (suffix ''x.webp'') = ''.webp''" by code_simp
  have h6: "lower (suffix ''notes.txt'') \<notin> {''.png'', ''.jpg'', ''.jpeg'', ''.gif'', ''.webp''}"
    by code_simp
  have h7: "lower (suffix ''.png'') \<notin> {''.png'', ''.jpg'', ''.jpeg'', ''.gif'', ''.webp''}"
    by code_simp
  note t1 = get_media_type_table [of "''menu1.PNG''"]
  note t2 = get_media_type_table [of "''a.b.Jpg''"]
  note t3 = get_media_type_table [of "''x.jpeg''"]
  note t4 = get_media_type_table [of "''x.gif''"]
  note t5 = get_media_type_table [of "''x.webp''"]
  note t6 = get_media_type_table [of "''notes.txt''"]
  note t7 = get_media_type_table [of "''.png''"]
  have c1: "get_media_type ''menu1.PNG'' = ''image/png''"
    by (rule t1 [THEN conjunct2, THEN conjunct1, rule_format, OF h1])
  have c2: "get_media_type ''a.b.Jpg'' = ''image/jpeg''"
    by (rule t2 [THEN conjunct2, THEN conjunct2, THEN conjunct1, rule_format, OF h2])
  have c3: "get_media_type ''x.jpeg'' = ''image/jpeg''"
    by (rule t3 [THEN conjunct2, THEN conjunct2, THEN conjunct2, THEN conjunct1,
          rule_format, OF h3])
  have c4: "get_media_type ''x.gif'' = ''image/gif''"
    by (rule t4 [THEN conjunct2, THEN conjunct2, THEN conjunct2, THEN conjunct2,
          THEN conjunct1, rule_format, OF h4])
  have c5: "get_media_type ''x.webp'' = ''image/webp''"
    by (rule t5 [THEN conjunct2, THEN conjunct2, THEN conjunct2, THEN conjunct2,
          THEN conjunct2, THEN conjunct1, rule_format, OF h5])
  have c6: "get_media_type ''notes.txt'' = ''image/jpeg''"
    by (rule t6 [THEN conjunct2, THEN conjunct2, THEN conjunct2, THEN conjunct2,
          THEN conjunct2, THEN conjunct2, THEN mp, OF h6])
  have c7: "get_media_type ''.png'' = ''image/jpeg''"
    by (rule t7 [THEN conjunct2, THEN conjunct2, THEN conjunct2, THEN conjunct2,
          THEN conjunct2, THEN conjunct2, THEN mp, OF h7])
  show ?thesis
    by (intro conjI) (fact h1 c1 h2 c2 h3 c3 h4 c4 h5 c5 h6 c6 h7 c7)+
qed

section \<open>Deduplication\<close>

text \<open>Trimming and lower-casing commute: no letter turns into whitespace.\<close>

lemma py_isspace_lower_char: "py_isspace (lower_char c) = py_isspace c"
  unfolding py_isspace_def lower_char_def Let_def
  by (auto simp: of_char_of)

lemma dropWhile_isspace_lower:
  "dropWhile py_isspace (map lower_char xs) = map lower_char (dropWhile py_isspace xs)"
  by (induction xs) (simp_all add: py_isspace_lower_char)

lemma strip_lower: "strip (lower s) = lower (strip s)"
proof -
  have "strip (lower s)
      = rev (dropWhile py_isspace (map lower_char (rev (dropWhile py_isspace s))))"
    by (simp add: strip_def lower_def dropWhile_isspace_lower rev_map)
  also have "\<dots> = lower (strip s)"
    by (simp add: strip_def lower_def dropWhile_isspace_lower rev_map)
  finally show ?thesis .
qed

lemma dict_setitem_new:
  "k \<notin> fst ` set d \<Longrightarrow> dict_setitem d k v = d @ [(k, v)]"
  by (induction d) auto

lemma dedup_loop_append:
  "dedup_loop (xs @ ys) d = dedup_loop ys (dedup_loop xs d)"
  by (induction xs arbitrary: d) auto

lemma keys_dedup_loop:
  "fst ` set (dedup_loop xs d) = fst ` set d \<union> item_key ` set xs"
  by (induction xs arbitrary: d) (auto simp: dict_contains_def dict_setitem_new)

lemma dedup_Nil: "dedup [] = []"
  by (simp add: dedup_def dict_values_def)

text \<open>One more item at the end of the input: it is kept exactly when its key is new.\<close>

lemma dedup_snoc:
  "dedup (xs @ [x]) =
     (if item_key x \<in> item_key ` set xs then dedup xs else dedup xs @ [x])"
  by (simp add: dedup_def dict_values_def dedup_loop_append dict_contains_def
        keys_dedup_loop dict_setitem_new)

lemma dedup_spec_Nil: "dedup_spec [] = []"
  by (simp add: dedup_spec_def)

lemma no_earlier_key_iff:
  "(\<forall>j \<in> set [0..<length xs]. item_key ((xs @ [x]) ! j) \<noteq> item_key x)
     \<longleftrightarrow> item_key x \<notin> item_key ` set xs"
proof
  assume a: "\<forall>j \<in> set [0..<length xs]. item_key ((xs @ [x]) ! j) \<noteq> item_key x"
  show "item_key x \<notin> item_key ` set xs"
  proof
    assume "item_key x \<in> item_key ` set xs"
    then obtain y where y: "y \<in> set xs" "item_key x = item_key y" by auto
    then obtain j where j: "j < length xs" "xs ! j = y" by (auto simp: in_set_conv_nth)
    with a have "item_key ((xs @ [x]) ! j) \<noteq> item_key x" by simp
    with j y show False by (simp add: nth_append)
  qed
next
  assume a: "item_key x \<notin> item_key ` set xs"
  show "\<forall>j \<in> set [0..<length xs]. item_key ((xs @ [x]) ! j) \<noteq> item_key x"
  proof
    fix j assume "j \<in> set [0..<length xs]"
    then have j: "j < length xs" by simp
    then have "xs ! j \<in> set xs" by simp
    then have "item_key (xs ! j) \<in> item_key ` set xs" by (rule imageI)
    with a have "item_key (xs ! j) \<noteq> item_key x" by metis
    with j show "item_key ((xs @ [x]) ! j) \<noteq> item_key x" by (simp add: nth_append)
  qed
qed

lemma dedup_spec_snoc:
  "dedup_spec (xs @ [x]) =
     (if item_key x \<in> item_key ` set xs then dedup_spec xs else dedup_spec xs @ [x])"
proof -
  have keep:
    "filter (\<lambda>i. \<forall>j \<in> set [0..<i]. item_key ((xs @ [x]) ! j) \<noteq> item_key ((xs @ [x]) ! i))
        [0..<length xs]
     = filter (\<lambda>i. \<forall>j \<in> set [0..<i]. item_key (xs ! j) \<noteq> item_key (xs ! i)) [0..<length xs]"
    by (rule filter_cong) (auto simp: nth_append)
  have same:
    "map (\<lambda>i. (xs @ [x]) ! i)
        (filter (\<lambda>i. \<forall>j \<in> set [0..<i]. item_key (xs ! j) \<noteq> item_key (xs ! i)) [0..<length xs])
     = map (\<lambda>i. xs ! i)
        (filter (\<lambda>i. \<forall>j \<in> set [0..<i]. item_key (xs ! j) \<noteq> item_key (xs ! i)) [0..<length xs])"
    by (rule map_cong) (auto simp: nth_append)
  show ?thesis
    unfolding dedup_spec_def using no_earlier_key_iff [of xs x]
    by (simp add: keep same del: set_upt)
qed

lemma keys_dedup: "item_key ` set (dedup xs) = item_key ` set xs"
  by (induction xs rule: rev_induct) (auto simp: dedup_Nil dedup_snoc)

lemma distinct_keys_dedup: "distinct (map item_key (dedup xs))"
proof (induction xs rule: rev_induct)
  case Nil
  show ?case by (simp add: dedup_Nil)
next
  case (snoc x xs)
  show ?case using snoc keys_dedup [of xs] by (auto simp: dedup_snoc)
qed

lemma dedup_distinct_id: "distinct (map item_key xs) \<Longrightarrow> dedup xs = xs"
  by (induction xs rule: rev_induct) (auto simp: dedup_Nil dedup_snoc)

lemma dedup_single: "dedup [x] = [x]"
  by (rule dedup_distinct_id) simp

lemma length_dedup: "length (dedup xs) \<le> length xs"
  by (induction xs rule: rev_induct) (auto simp: dedup_Nil dedup_snoc)

lemma find_snoc:
  "find P (xs @ [x]) =
     (case find P xs of Some y \<Rightarrow> Some y | None \<Rightarrow> if P x then Some x else None)"
  by (induction xs) auto

text \<open>
  Claim C3. \<^verbatim>\<open>dedup\<close> has no error result; it maps the empty list to the empty list, and
  on every list of items it returns exactly the items at the positions that no earlier
  position matches in trimmed, lower-cased dish name, in input order. The key is the
  dish name trimmed and lower-cased, in either order of the two.
\<close>

theorem dedup_first_occurrences:
  "dedup [] = [] \<and> dedup its = dedup_spec its \<and>
   item_key item = strip (lower (dish_name item))"
proof (intro conjI)
  show "dedup [] = []" by (rule dedup_Nil)
  show "dedup its = dedup_spec its"
    by (induction its rule: rev_induct)
       (simp_all add: dedup_Nil dedup_spec_Nil dedup_snoc dedup_spec_snoc)
  show "item_key item = strip (lower (dish_name item))"
    by (simp add: item_key_def strip_lower)
qed

theorem dedup_first_occurrences_witness:
  "dedup [menu_item ''Soup'' 5 ''Lunch'', menu_item ''soup '' 6 ''Lunch'',
          menu_item ''Salad'' 4 ''Lunch'']
     = [menu_item ''Soup'' 5 ''Lunch'', menu_item ''Salad'' 4 ''Lunch'']"
proof -
  have "dedup_spec [menu_item ''Soup'' 5 ''Lunch'', menu_item ''soup '' 6 ''Lunch'',
          menu_item ''Salad'' 4 ''Lunch'']
     = [menu_item ''Soup'' 5 ''Lunch'', menu_item ''Salad'' 4 ''Lunch'']"
    by code_simp
  then show ?thesis
    using dedup_first_occurrences
            [of "[menu_item ''Soup'' 5 ''Lunch'', menu_item ''soup '' 6 ''Lunch'',
                  menu_item ''Salad'' 4 ''Lunch'']"]
    by simp
qed

text \<open>Claim C8. \<^verbatim>\<open>dedup\<close> is idempotent.\<close>

theorem dedup_idempotent: "dedup (dedup x) = dedup x"
  by (rule dedup_distinct_id) (rule distinct_keys_dedup)

theorem dedup_idempotent_witness:
  "dedup (dedup [menu_item ''Soup'' 5 ''Lunch'', menu_item ''soup '' 6 ''Lunch'',
                 menu_item ''Salad'' 4 ''Lunch''])
     = [menu_item ''Soup'' 5 ''Lunch'', menu_item ''Salad'' 4 ''Lunch'']"
proof -
  have "dedup [menu_item ''Soup'' 5 ''Lunch'', menu_item ''soup '' 6 ''Lunch'',
               menu_item ''Salad'' 4 ''Lunch'']
     = [menu_item ''Soup'' 5 ''Lunch'', menu_item ''Salad'' 4 ''Lunch'']"
    by code_simp
  then show ?thesis
    using dedup_idempotent
            [of "[menu_item ''Soup'' 5 ''Lunch'', menu_item ''soup '' 6 ''Lunch'',
                  menu_item ''Salad'' 4 ''Lunch'']"]
    by simp
qed

text \<open>
  Claim C10. Every item \<^verbatim>\<open>dedup\<close> returns is an item of the input, and it is the first
  input item with its key, equal to it in every field: the dish name that survives keeps
  its casing and its surrounding whitespace.
\<close>

theorem dedup_items_unmodified:
  "y \<in> set (dedup its) \<Longrightarrow>
     y \<in> set its \<and> find (\<lambda>x. item_key x = item_key y) its = Some y"
proof (induction its rule: rev_induct)
  case Nil
  then show ?case by (simp add: dedup_Nil)
next
  case (snoc x xs)
  show ?case
  proof (cases "y \<in> set (dedup xs)")
    case True
    then show ?thesis using snoc.IH by (simp add: find_snoc)
  next
    case False
    with snoc.prems have new: "item_key x \<notin> item_key ` set xs" and yx: "y = x"
      by (auto simp: dedup_snoc split: if_splits)
    have "find (\<lambda>z. item_key z = item_key x) xs = None"
      using new by (force simp: find_None_iff image_iff)
    then show ?thesis using yx by (simp add: find_snoc)
  qed
qed

theorem dedup_items_unmodified_witness:
  "menu_item ''  SOUP '' 5 ''Lunch''
     \<in> set (dedup [menu_item ''  SOUP '' 5 ''Lunch'', menu_item ''soup'' 6 ''Dinner'']) \<and>
   find (\<lambda>x. item_key x = item_key (menu_item ''  SOUP '' 5 ''Lunch''))
     [menu_item ''  SOUP '' 5 ''Lunch'', menu_item ''soup'' 6 ''Dinner'']
     = Some (menu_item ''  SOUP '' 5 ''Lunch'') \<and>
   dish_name (menu_item ''  SOUP '' 5 ''Lunch'') = ''  SOUP ''"
proof -
  have h: "menu_item ''  SOUP '' 5 ''Lunch''
     \<in> set (dedup [menu_item ''  SOUP '' 5 ''Lunch'', menu_item ''soup'' 6 ''Dinner''])"
    by code_simp
  show ?thesis
    using h dedup_items_unmodified [OF h] by (simp add: menu_item_def)
qed

section \<open>The store\<close>

lemma csv_file_print [simp]: "csv_file (print l w) = csv_file w"
  by (simp add: print_def)

lemma csv_file_print_items [simp]: "csv_file (print_items its w) = csv_file w"
  by (induction its arbitrary: w) simp_all

lemma clock_reads_print [simp]: "clock_reads (print l w) = clock_reads w"
  by (simp add: print_def)

lemma clock_reads_print_items [simp]: "clock_reads (print_items its w) = clock_reads w"
  by (induction its arbitrary: w) simp_all

lemma store_rows_Some: "csv_file w = Some rows \<Longrightarrow> store_rows w = rows"
  by (simp add: store_rows_def)

text \<open>The loop writes one record for each item, behind what the file held.\<close>

lemma write_items_eq:
  "write_items timestamp source_image extraction its f
     = f @ map (csv_row timestamp source_image extraction) its"
  by (induction its arbitrary: f) simp_all

lemma csv_file_append_to_csv:
  "csv_file (append_to_csv e source_image extraction w) =
     Some (store_rows w @
           map (csv_row (now_isoformat e (clock_reads w)) source_image extraction)
             (EnrichedMenuExtraction.items extraction))"
  by (simp add: append_to_csv_def store_rows_def write_items_eq Let_def)

lemma column_csv_row:
  "column ''timestamp'' (csv_row ts src ex item) = Some (Str ts)"
  "column ''restaurant_name'' (csv_row ts src ex item)
     = Some (Str (EnrichedMenuExtraction.restaurant_name ex))"
  "column ''cuisine_type'' (csv_row ts src ex item)
     = Some (Str (EnrichedMenuExtraction.cuisine_type ex))"
  "column ''google_rating'' (csv_row ts src ex item)
     = Some (rating_or_empty (EnrichedMenuExtraction.google_rating ex))"
  "column ''address'' (csv_row ts src ex item)
     = Some (Str (EnrichedMenuExtraction.address ex))"
  by (simp_all add: column_def header_def csv_row_def)

text \<open>
  Where the rating column does follow the enrichment: an absent rating leaves the cell
  empty, and a rating other than zero is written as it is.
\<close>

lemma rating_or_empty_absent: "rating_or_empty None = Str []"
  by (simp add: rating_or_empty_def)

lemma rating_or_empty_nonzero: "x \<noteq> 0 \<Longrightarrow> rating_or_empty (Some x) = Float x"
  by (simp add: rating_or_empty_def)

text \<open>
  Claim C1. The claim asks that the rating column is empty exactly when the enrichment
  has no rating, a rating of 0 included among those that are written. The code does not
  do that for the rating 0: the pipeline of \<^verbatim>\<open>menu1.png\<close>, with an enrichment whose
  \<^verbatim>\<open>google_rating\<close> is 0, writes one record whose rating cell is the empty string, the
  cell it writes for an absent rating.
\<close>

theorem zero_rating_written_empty:
  "csv_file
     (process_image
        (example_env\<lparr>enrichment_agent_run :=
           (\<lambda>prompt. Inr \<lparr>RestaurantEnrichment.google_rating = Some 0,
                             address = ''Hameenkatu 1'', cuisine_type = ''Cafe''\<rparr>)\<rparr>)
        ''menu1.png'' fresh_world)
   = Some [[Str ''2026-01-01T12:00:00'', Str ''menu1.png'', Str ''Cafe X'', Str ''Coffee'',
            Float 3.5, Str ''Beverage'', Str [], Str ''Cafe'', Str [], Str ''Hameenkatu 1'']]"
proof -
  have sfx: "lower (suffix ''menu1.png'') \<in> IMAGE_EXTENSIONS" by code_simp
  show ?thesis
    using sfx
    by (simp add: process_image_def example_env_def fresh_world_def enrich_restaurant_def
          enriched_extraction_of_def csv_file_append_to_csv store_rows_def csv_row_def
          rating_or_empty_def menu_item_def dedup_single Let_def)
qed

text \<open>
  Claim C4. One call of \<^verbatim>\<open>append_to_csv\<close> with an extraction of N items leaves the
  records that were in the file in place and puts exactly N records behind them; each of
  the N carries the one timestamp read at the start of the call and the restaurant name,
  cuisine type, rating cell and address of the extraction.
\<close>

theorem append_to_csv_rows:
  "take (length (store_rows w)) (store_rows (append_to_csv e source_image extraction w))
     = store_rows w \<and>
   length (new_rows w (append_to_csv e source_image extraction w))
     = length (EnrichedMenuExtraction.items extraction) \<and>
   (\<forall>r \<in> set (new_rows w (append_to_csv e source_image extraction w)).
      column ''timestamp'' r = Some (Str (now_isoformat e (clock_reads w))) \<and>
      column ''restaurant_name'' r
        = Some (Str (EnrichedMenuExtraction.restaurant_name extraction)) \<and>
      column ''cuisine_type'' r = Some (Str (EnrichedMenuExtraction.cuisine_type extraction)) \<and>
      column ''google_rating'' r
        = Some (rating_or_empty (EnrichedMenuExtraction.google_rating extraction)) \<and>
      column ''address'' r = Some (Str (EnrichedMenuExtraction.address extraction)))"
proof -
  have rows: "store_rows (append_to_csv e source_image extraction w) =
      store_rows w @ map (csv_row (now_isoformat e (clock_reads w)) source_image extraction)
             (EnrichedMenuExtraction.items extraction)"
    using csv_file_append_to_csv [of e source_image extraction w]
    by (simp add: store_rows_def)
  have new: "new_rows w (append_to_csv e source_image extraction w) =
      map (csv_row (now_isoformat e (clock_reads w)) source_image extraction)
             (EnrichedMenuExtraction.items extraction)"
    by (simp add: new_rows_def rows)
  show ?thesis
    by (auto simp: rows new column_csv_row)
qed

theorem append_to_csv_rows_witness:
  "length (new_rows fresh_world (append_to_csv example_env ''menu1.png'' cafe_x fresh_world)) = 2 \<and>
   column ''timestamp''
     (new_rows fresh_world (append_to_csv example_env ''menu1.png'' cafe_x fresh_world) ! 0)
     = Some (Str ''2026-01-01T12:00:00'') \<and>
   column ''timestamp''
     (new_rows fresh_world (append_to_csv example_env ''menu1.png'' cafe_x fresh_world) ! 1)
     = Some (Str ''2026-01-01T12:00:00'') \<and>
   column ''restaurant_name''
     (new_rows fresh_world (append_to_csv example_env ''menu1.png'' cafe_x fresh_world) ! 1)
     = Some (Str ''Cafe X'') \<and>
   column ''cuisine_type''
     (new_rows fresh_world (append_to_csv example_env ''menu1.png'' cafe_x fresh_world) ! 1)
     = Some (Str ''Cafe'') \<and>
   column ''google_rating''
     (new_rows fresh_world (append_to_csv example_env ''menu1.png'' cafe_x fresh_world) ! 1)
     = Some (Float 4.2) \<and>
   column ''address''
     (new_rows fresh_world (append_to_csv example_env ''menu1.png'' cafe_x fresh_world) ! 1)
     = Some (Str ''Hameenkatu 1'')"
proof -
  let ?new = "new_rows fresh_world (append_to_csv example_env ''menu1.png'' cafe_x fresh_world)"
  note t = append_to_csv_rows [of fresh_world example_env "''menu1.png''" cafe_x]
  from t have len: "length ?new = 2" by (simp add: cafe_x_def)
  then have m: "?new ! 0 \<in> set ?new" "?new ! 1 \<in> set ?new" by simp_all
  from t have "\<forall>r \<in> set ?new.
      column ''timestamp'' r = Some (Str ''2026-01-01T12:00:00'') \<and>
      column ''restaurant_name'' r = Some (Str ''Cafe X'') \<and>
      column ''cuisine_type'' r = Some (Str ''Cafe'') \<and>
      column ''google_rating'' r = Some (Float 4.2) \<and>
      column ''address'' r = Some (Str ''Hameenkatu 1'')"
    by (simp add: cafe_x_def example_env_def fresh_world_def rating_or_empty_def)
  with m len show ?thesis by blast
qed

text \<open>
  Claim C6. \<^verbatim>\<open>initialize_csv\<close> is idempotent; called on a world where the file exists it
  changes nothing; called twice where the file is missing it leaves a file that holds the
  header record once and nothing else.
\<close>

theorem initialize_csv_idempotent:
  "initialize_csv (initialize_csv w) = initialize_csv w \<and>
   (csv_file w \<noteq> None \<longrightarrow> initialize_csv w = w) \<and>
   (csv_file w = None \<longrightarrow>
      csv_file (initialize_csv (initialize_csv w)) = Some [header])"
  by (simp add: initialize_csv_def print_def)

theorem initialize_csv_idempotent_witness:
  "csv_file fresh_world = None \<and>
   csv_file (initialize_csv (initialize_csv fresh_world)) = Some [header] \<and>
   csv_file (initialize_csv fresh_world) \<noteq> None \<and>
   initialize_csv (initialize_csv fresh_world) = initialize_csv fresh_world"
proof -
  have h: "csv_file fresh_world = None" by (simp add: fresh_world_def)
  have h': "csv_file (initialize_csv fresh_world) \<noteq> None"
    by (simp add: fresh_world_def initialize_csv_def print_def)
  show ?thesis
    using h h' initialize_csv_idempotent [of fresh_world]
      initialize_csv_idempotent [of "initialize_csv fresh_world"]
    by simp
qed

section \<open>One pipeline\<close>

text \<open>Run alone, the four resumptions of a pipeline are \<^verbatim>\<open>process_image\<close>.\<close>

lemma process_image_alone:
  "process_image e p w = snd (run_schedule e [0, 0, 0, 0] [Start p] w)"
  by (auto simp: process_image_def enrich_restaurant_def Let_def split: sum.splits)

text \<open>A failing extraction ends its pipeline in the handler, with the error printed.\<close>

lemma extraction_failure_caught:
  "extraction_agent_run e image_data media_type = Inl ex \<Longrightarrow>
     task_step e (Extracting p image_data media_type) w
       = (Finished, print (Error_processing p ex) w)"
  by simp

text \<open>
  Claim C2. When the bytes of an image are read, its extraction succeeds and its
  enrichment raises, \<^verbatim>\<open>process_image\<close> leaves the store file as it found it, and so does
  every single resumption of that pipeline inside the sweep: no record is written for
  the image.
\<close>

theorem enrichment_failure_writes_nothing:
  assumes "read_bytes e image_path = Inr image_data"
      and "extraction_agent_run e image_data (get_media_type image_path) = Inr output"
      and "enrichment_agent_run e (enrichment_prompt (MenuExtraction.restaurant_name output))
             = Inl ex"
  shows "csv_file (process_image e image_path w) = csv_file w \<and>
         csv_file (snd (task_step e (Start image_path) w)) = csv_file w \<and>
         csv_file (snd (task_step e (Sleeping image_path) w)) = csv_file w \<and>
         csv_file (snd (task_step e
            (Extracting image_path image_data (get_media_type image_path)) w)) = csv_file w \<and>
         csv_file (snd (task_step e
            (Enriching image_path (MenuExtraction.restaurant_name output)
               (dedup (MenuExtraction.items output))) w)) = csv_file w"
  using assms by (simp add: process_image_def enrich_restaurant_def Let_def)

theorem enrichment_failure_writes_nothing_witness:
  "read_bytes (example_env\<lparr>enrichment_agent_run := (\<lambda>prompt. Inl (Exception ''no network''))\<rparr>)
     ''menu1.png'' = Inr ''menu1.png'' \<and>
   extraction_agent_run
     (example_env\<lparr>enrichment_agent_run := (\<lambda>prompt. Inl (Exception ''no network''))\<rparr>)
     ''menu1.png'' (get_media_type ''menu1.png'')
     = Inr \<lparr>MenuExtraction.restaurant_name = ''Cafe X'',
            items = [menu_item ''Coffee'' 3.5 ''Beverage'']\<rparr> \<and>
   enrichment_agent_run
     (example_env\<lparr>enrichment_agent_run := (\<lambda>prompt. Inl (Exception ''no network''))\<rparr>)
     (enrichment_prompt ''Cafe X'') = Inl (Exception ''no network'') \<and>
   csv_file
     (process_image
        (example_env\<lparr>enrichment_agent_run := (\<lambda>prompt. Inl (Exception ''no network''))\<rparr>)
        ''menu1.png'' (initialize_csv fresh_world))
     = Some [header]"
proof -
  let ?e = "example_env\<lparr>enrichment_agent_run := (\<lambda>prompt. Inl (Exception ''no network''))\<rparr>"
  let ?out = "\<lparr>MenuExtraction.restaurant_name = ''Cafe X'',
               items = [menu_item ''Coffee'' 3.5 ''Beverage'']\<rparr>"
  have h1: "read_bytes ?e ''menu1.png'' = Inr ''menu1.png''"
    by (simp add: example_env_def)
  have h2: "extraction_agent_run ?e ''menu1.png'' (get_media_type ''menu1.png'') = Inr ?out"
    by (simp add: example_env_def)
  have h3: "enrichment_agent_run ?e (enrichment_prompt (MenuExtraction.restaurant_name ?out))
      = Inl (Exception ''no network'')"
    by simp
  have w: "csv_file (initialize_csv fresh_world) = Some [header]"
    by (simp add: initialize_csv_def fresh_world_def)
  from enrichment_failure_writes_nothing [OF h1 h2 h3, of "initialize_csv fresh_world"]
  have "csv_file (process_image ?e ''menu1.png'' (initialize_csv fresh_world)) = Some [header]"
    by (simp only: w)
  with h1 h2 h3 show ?thesis by simp
qed

section \<open>The initial sweep\<close>

lemma task_step_store:
  "task_step e t w = (t', w') \<Longrightarrow>
     csv_file w' = csv_file w \<or> (\<exists>new. csv_file w' = Some (store_rows w @ new))"
proof (cases t)
  case (Enriching image_path rname its)
  assume "task_step e t w = (t', w')"
  with Enriching show ?thesis
    by (auto simp: csv_file_append_to_csv store_rows_def Let_def split: sum.splits)
qed (auto simp: Let_def split: if_splits sum.splits)

text \<open>Every resumption brings a pipeline one step nearer to its return.\<close>

lemma task_step_left:
  "task_step e t w = (t', w') \<Longrightarrow> resumptions_left t' \<le> resumptions_left t - 1"
  by (cases t) (auto simp: Let_def split: if_splits sum.splits)

lemma run_schedule_length:
  "run_schedule e sched ts w = (ts', w') \<Longrightarrow> length ts' = length ts"
proof (induction sched arbitrary: ts w)
  case Nil
  then show ?case by simp
next
  case (Cons i sched)
  show ?case
  proof (cases "i < length ts")
    case True
    obtain t1 w1 where st: "task_step e (ts ! i) w = (t1, w1)" by force
    with Cons.prems True have "run_schedule e sched (ts[i := t1]) w1 = (ts', w')" by simp
    from Cons.IH [OF this] show ?thesis by simp
  next
    case False
    with Cons.prems have "run_schedule e sched ts w = (ts', w')" by simp
    from Cons.IH [OF this] show ?thesis .
  qed
qed

lemma run_schedule_left:
  "run_schedule e sched ts w = (ts', w') \<Longrightarrow> k < length ts \<Longrightarrow>
     resumptions_left (ts' ! k) \<le> resumptions_left (ts ! k) - count_list sched k"
proof (induction sched arbitrary: ts w)
  case Nil
  then show ?case by simp
next
  case (Cons i sched)
  show ?case
  proof (cases "i < length ts")
    case True
    obtain t1 w1 where st: "task_step e (ts ! i) w = (t1, w1)" by force
    with Cons.prems True have run: "run_schedule e sched (ts[i := t1]) w1 = (ts', w')" by simp
    from Cons.prems have k: "k < length (ts[i := t1])" by simp
    note ih = Cons.IH [OF run k]
    show ?thesis
    proof (cases "i = k")
      case True
      with task_step_left [OF st] ih Cons.prems show ?thesis by simp
    next
      case False
      with ih show ?thesis by simp
    qed
  next
    case False
    with Cons.prems have run: "run_schedule e sched ts w = (ts', w')" by simp
    from False Cons.prems have "i \<noteq> k" by auto
    with Cons.IH [OF run Cons.prems(2)] show ?thesis by simp
  qed
qed

lemma count_list_upt: "count_list [0..<n] k = (if k < n then 1 else 0)"
  by (induction n) auto

lemma count_list_concat_replicate:
  "count_list (concat (replicate m xs)) k = m * count_list xs k"
  by (induction m) simp_all

lemma gather_tasks_length:
  "gather_tasks e sched images w = (ts', w') \<Longrightarrow> length ts' = length images"
  by (auto simp: gather_tasks_def dest: run_schedule_length)

text \<open>When \<^verbatim>\<open>gather\<close> is over, every pipeline has returned.\<close>

lemma gather_tasks_finished:
  assumes "gather_tasks e sched images w = (ts', w')" and "k < length images"
  shows "ts' ! k = Finished"
proof -
  let ?all = "sched @ concat (replicate 4 [0..<length images])"
  from assms(1) have run: "run_schedule e ?all (map Start images) w = (ts', w')"
    by (simp add: gather_tasks_def)
  have "count_list ?all k \<ge> 4"
    using assms(2) by (simp add: count_list_concat_replicate count_list_upt)
  moreover have "resumptions_left (ts' ! k)
      \<le> resumptions_left (map Start images ! k) - count_list ?all k"
    using run_schedule_left [OF run] assms(2) by simp
  ultimately have "resumptions_left (ts' ! k) = 0"
    using assms(2) by simp
  then show ?thesis by (cases "ts' ! k") simp_all
qed

text \<open>
  The pipeline of an image whose three calls succeed, followed through any schedule: as
  long as it has not returned it is at one of its four suspension points with the values
  the calls gave it, and once it has returned its records are in the store, where the
  resumptions of the other pipelines, which only ever append, leave them.
\<close>

lemma good_image_persisted:
  assumes ext: "lower (suffix p) \<in> IMAGE_EXTENSIONS"
      and rd: "read_bytes e p = Inr image_data"
      and ex: "extraction_agent_run e image_data (get_media_type p) = Inr output"
      and en: "enrichment_agent_run e (enrichment_prompt (MenuExtraction.restaurant_name output))
                 = Inr enrichment"
      and run: "run_schedule e sched ts w = (ts', w')"
      and b: "b < length ts"
      and start: "ts ! b = Start p"
      and fin: "ts' ! b = Finished"
  shows "\<exists>timestamp before after.
           csv_file w' =
             Some (before @
                   map (csv_row timestamp p
                          (enriched_extraction_of (MenuExtraction.restaurant_name output)
                             enrichment (dedup (MenuExtraction.items output))))
                     (dedup (MenuExtraction.items output)) @
                   after)"
proof -
  define rows where "rows timestamp =
      map (csv_row timestamp p
             (enriched_extraction_of (MenuExtraction.restaurant_name output)
                enrichment (dedup (MenuExtraction.items output))))
        (dedup (MenuExtraction.items output))" for timestamp
  define stored where "stored v \<longleftrightarrow>
      (\<exists>timestamp before after. csv_file v = Some (before @ rows timestamp @ after))"
    for v :: world
  define pending where "pending t \<longleftrightarrow>
      t = Start p \<or> t = Sleeping p \<or> t = Extracting p image_data (get_media_type p) \<or>
      t = Enriching p (MenuExtraction.restaurant_name output)
            (dedup (MenuExtraction.items output))" for t
  have own: "pending t' \<or> (t' = Finished \<and> stored v')"
    if "pending t" and "task_step e t v = (t', v')" for t v t' v'
  proof -
    from that(1) consider "t = Start p" | "t = Sleeping p"
      | "t = Extracting p image_data (get_media_type p)"
      | "t = Enriching p (MenuExtraction.restaurant_name output)
            (dedup (MenuExtraction.items output))"
      unfolding pending_def by blast
    then show ?thesis
    proof cases
      case 1
      with that(2) ext show ?thesis by (auto simp: pending_def)
    next
      case 2
      with that(2) rd show ?thesis by (auto simp: pending_def Let_def)
    next
      case 3
      with that(2) ex show ?thesis by (auto simp: pending_def Let_def)
    next
      case 4
      with that(2) en have
        "t' = Finished" and
        "csv_file v' = Some (store_rows v @ rows (now_isoformat e (clock_reads v)) @ [])"
        by (auto simp: Let_def csv_file_append_to_csv rows_def store_rows_def
              enriched_extraction_of_def)
      then show ?thesis unfolding stored_def by blast
    qed
  qed
  have other: "stored v'" if "stored v" and "task_step e t v = (t', v')" for t v t' v'
  proof -
    from that(1) obtain timestamp before after
      where v: "csv_file v = Some (before @ rows timestamp @ after)"
      unfolding stored_def by blast
    from task_step_store [OF that(2)] show ?thesis
    proof
      assume "csv_file v' = csv_file v"
      with v show ?thesis unfolding stored_def by auto
    next
      assume "\<exists>new. csv_file v' = Some (store_rows v @ new)"
      then obtain new where "csv_file v' = Some (store_rows v @ new)" by blast
      with v have "csv_file v' = Some (before @ rows timestamp @ (after @ new))"
        by (simp add: store_rows_Some)
      then show ?thesis unfolding stored_def by blast
    qed
  qed
  have inv: "pending (ts' ! b) \<or> (ts' ! b = Finished \<and> stored w')"
    if "run_schedule e sched us v = (ts', w')" and "b < length us"
      and "pending (us ! b) \<or> (us ! b = Finished \<and> stored v)" for us v
    using that
  proof (induction sched arbitrary: us v)
    case Nil
    then show ?case by simp
  next
    case (Cons i sched)
    show ?case
    proof (cases "i < length us")
      case False
      with Cons.prems(1) have "run_schedule e sched us v = (ts', w')" by simp
      from Cons.IH [OF this Cons.prems(2) Cons.prems(3)] show ?thesis .
    next
      case True
      obtain t1 v1 where st: "task_step e (us ! i) v = (t1, v1)" by force
      with Cons.prems(1) True
      have r: "run_schedule e sched (us[i := t1]) v1 = (ts', w')" by simp
      from Cons.prems(2) have l: "b < length (us[i := t1])" by simp
      have "pending ((us[i := t1]) ! b) \<or> ((us[i := t1]) ! b = Finished \<and> stored v1)"
      proof (cases "i = b")
        case True
        from Cons.prems(3) show ?thesis
        proof
          assume "pending (us ! b)"
          with own [of "us ! b" v t1 v1] st True Cons.prems(2) show ?thesis by simp
        next
          assume f: "us ! b = Finished \<and> stored v"
          with st True have "t1 = Finished" "v1 = v" by simp_all
          with f True Cons.prems(2) show ?thesis by simp
        qed
      next
        case False
        from Cons.prems(3) show ?thesis
        proof
          assume "pending (us ! b)"
          with False show ?thesis by simp
        next
          assume f: "us ! b = Finished \<and> stored v"
          with other [OF _ st] have "stored v1" by blast
          with f False show ?thesis by simp
        qed
      qed
      from Cons.IH [OF r l this] show ?thesis .
    qed
  qed
  have "pending (ts ! b)" using start by (simp add: pending_def)
  with inv [OF run b] have "pending (ts' ! b) \<or> (ts' ! b = Finished \<and> stored w')" by blast
  with fin have "stored w'" by (auto simp: pending_def)
  then show ?thesis unfolding stored_def rows_def .
qed

text \<open>
  Claim C5. In the initial sweep, whatever happens to the other images (a failing
  extraction of image A among them) and in whatever order the event loop resumes the
  pipelines, every pipeline returns, no exception leaves \<^verbatim>\<open>gather\<close>, and an image B
  whose read, extraction and enrichment succeed has its records in the store at the end.
\<close>

theorem sweep_failure_isolated:
  assumes "b < length images"
      and "lower (suffix (images ! b)) \<in> IMAGE_EXTENSIONS"
      and "read_bytes e (images ! b) = Inr image_data"
      and "extraction_agent_run e image_data (get_media_type (images ! b)) = Inr output"
      and "enrichment_agent_run e (enrichment_prompt (MenuExtraction.restaurant_name output))
             = Inr enrichment"
  shows "list_all (\<lambda>t. t = Finished) (fst (gather_tasks e sched images w)) \<and>
         (\<exists>timestamp before after.
            csv_file (gather e sched images w) =
              Some (before @
                    map (csv_row timestamp (images ! b)
                           (enriched_extraction_of (MenuExtraction.restaurant_name output)
                              enrichment (dedup (MenuExtraction.items output))))
                      (dedup (MenuExtraction.items output)) @
                    after))"
proof -
  obtain ts' w' where g: "gather_tasks e sched images w = (ts', w')" by force
  have len: "length ts' = length images" by (rule gather_tasks_length [OF g])
  have fin: "ts' ! k = Finished" if "k < length images" for k
    by (rule gather_tasks_finished [OF g that])
  have all: "list_all (\<lambda>t. t = Finished) ts'"
    using len fin by (simp add: list_all_length)
  from g have run: "run_schedule e (sched @ concat (replicate 4 [0..<length images]))
      (map Start images) w = (ts', w')"
    by (simp add: gather_tasks_def)
  have "\<exists>timestamp before after.
            csv_file w' =
              Some (before @
                    map (csv_row timestamp (images ! b)
                           (enriched_extraction_of (MenuExtraction.restaurant_name output)
                              enrichment (dedup (MenuExtraction.items output))))
                      (dedup (MenuExtraction.items output)) @
                    after)"
    using assms(1) fin [OF assms(1)]
    by (intro good_image_persisted [OF assms(2-5) run]) simp_all
  with all g show ?thesis by (simp add: gather_def)
qed

theorem sweep_failure_isolated_witness:
  "(1::nat) < length [''broken.png'', ''menu1.png''] \<and>
   lower (suffix ([''broken.png'', ''menu1.png''] ! 1)) \<in> IMAGE_EXTENSIONS \<and>
   read_bytes example_env ([''broken.png'', ''menu1.png''] ! 1) = Inr ''menu1.png'' \<and>
   extraction_agent_run example_env ''broken.png'' (get_media_type ''broken.png'')
     = Inl (Exception ''timeout'') \<and>
   extraction_agent_run example_env ''menu1.png''
       (get_media_type ([''broken.png'', ''menu1.png''] ! 1))
     = Inr \<lparr>MenuExtraction.restaurant_name = ''Cafe X'',
            items = [menu_item ''Coffee'' 3.5 ''Beverage'']\<rparr> \<and>
   enrichment_agent_run example_env (enrichment_prompt ''Cafe X'')
     = Inr \<lparr>RestaurantEnrichment.google_rating = Some 4.2,
            address = ''Hameenkatu 1'', cuisine_type = ''Cafe''\<rparr> \<and>
   (\<exists>timestamp before after.
      csv_file (gather example_env (schedule example_env) [''broken.png'', ''menu1.png'']
                  (initialize_csv fresh_world)) =
        Some (before @
              [csv_row timestamp ''menu1.png''
                 (enriched_extraction_of ''Cafe X''
                    \<lparr>RestaurantEnrichment.google_rating = Some 4.2,
                      address = ''Hameenkatu 1'', cuisine_type = ''Cafe''\<rparr>
                    [menu_item ''Coffee'' 3.5 ''Beverage''])
                 (menu_item ''Coffee'' 3.5 ''Beverage'')] @
              after))"
proof -
  let ?images = "[''broken.png'', ''menu1.png'']"
  let ?out = "\<lparr>MenuExtraction.restaurant_name = ''Cafe X'',
               items = [menu_item ''Coffee'' 3.5 ''Beverage'']\<rparr>"
  let ?enr = "\<lparr>RestaurantEnrichment.google_rating = Some 4.2,
               address = ''Hameenkatu 1'', cuisine_type = ''Cafe''\<rparr>"
  have h1: "(1::nat) < length ?images" by simp
  have h2: "lower (suffix (?images ! 1)) \<in> IMAGE_EXTENSIONS" by code_simp
  have h3: "read_bytes example_env (?images ! 1) = Inr ''menu1.png''"
    by (simp add: example_env_def)
  have h4: "extraction_agent_run example_env ''menu1.png'' (get_media_type (?images ! 1))
      = Inr ?out"
    by (simp add: example_env_def)
  have h5: "enrichment_agent_run example_env
      (enrichment_prompt (MenuExtraction.restaurant_name ?out)) = Inr ?enr"
    by (simp add: example_env_def)
  have a: "extraction_agent_run example_env ''broken.png'' (get_media_type ''broken.png'')
      = Inl (Exception ''timeout'')"
    by (simp add: example_env_def)
  from sweep_failure_isolated [OF h1 h2 h3 h4 h5,
         of "schedule example_env" "initialize_csv fresh_world"]
  have "\<exists>timestamp before after.
      csv_file (gather example_env (schedule example_env) ?images (initialize_csv fresh_world)) =
        Some (before @
              [csv_row timestamp ''menu1.png''
                 (enriched_extraction_of ''Cafe X'' ?enr [menu_item ''Coffee'' 3.5 ''Beverage''])
                 (menu_item ''Coffee'' 3.5 ''Beverage'')] @
              after)"
    by (simp add: dedup_single)
  with h1 h2 h3 h4 h5 a show ?thesis by simp
qed

section \<open>Startup\<close>

text \<open>
  Where the startup check does work: when nothing exists at the watched path, \<^verbatim>\<open>main\<close>
  raises at once. Its result is the exception \<^verbatim>\<open>FileNotFoundError\<close> (the startup
  configuration error of the specification) whose message names the folder, and the
  world is as it was: no file has been read, the store has not been initialised, nothing
  has been printed and no image has been processed.
\<close>

lemma main_missing_path:
  "watch_folder e = Missing \<Longrightarrow>
     main e w = (Inl (FileNotFoundError ''Folder 'images_watchfolder' not found''), w)"
  by (simp add: main_def path_exists_def WATCH_FOLDER_def)

lemma main_missing_path_example:
  "main (example_env\<lparr>watch_folder := Missing\<rparr>) fresh_world
     = (Inl (FileNotFoundError ''Folder 'images_watchfolder' not found''), fresh_world)"
  by (rule main_missing_path) simp

text \<open>
  An error of listing the watched path leaves \<^verbatim>\<open>main\<close> only after the banner has been
  printed and the store initialised.
\<close>

lemma main_iterdir_error:
  "path_exists (watch_folder e) \<Longrightarrow>
   path_iterdir WATCH_FOLDER (watch_folder e) = Inl ex \<Longrightarrow>
     main e w = (Inl ex, initialize_csv (print (Watching_folder WATCH_FOLDER) w))"
  by (simp add: main_def Let_def)

text \<open>
  Claim C7. The claim asks that, when the watched directory does not exist, \<^verbatim>\<open>main\<close>
  raises the startup error before any processing, the initialisation of the store
  included. The code does not do that when the watched path exists as a regular file:
  there is no watched directory, yet \<^verbatim>\<open>WATCH_FOLDER.exists()\<close> holds, the guard that the
  code comments as the check that the watch folder exists lets the run through, the
  banner is printed, \<^verbatim>\<open>initialize_csv\<close> creates the store with its header, and only then
  \<^verbatim>\<open>iterdir\<close> raises \<^verbatim>\<open>NotADirectoryError\<close>, not the folder-not-found error of the guard.
\<close>

theorem main_file_at_watch_path:
  "main (example_env\<lparr>watch_folder := Regular_file\<rparr>) fresh_world
     = (Inl (NotADirectoryError (''[Errno 20] Not a directory: 'images_watchfolder'' @ [CHR 0x27])),
        \<lparr>csv_file = Some [header],
         stdout = [Watching_folder ''images_watchfolder'', Created ''menus-async.csv''],
         files_read = [],
         clock_reads = 0\<rparr>)"
  by (simp add: main_def path_exists_def initialize_csv_def print_def fresh_world_def
        WATCH_FOLDER_def CSV_OUTPUT_def Let_def)

text \<open>
  The run of the specification's end-to-end scenario: the folder exists, \<^verbatim>\<open>menu1.png\<close> is
  read as the menu of Cafe X with one item and enriched, a second image fails, a text
  file is skipped. The store ends with the header and the one record of \<^verbatim>\<open>menu1.png\<close>.
\<close>

lemma example_run:
  "main example_env fresh_world
     = (Inr (),
        \<lparr>csv_file =
           Some [header,
                 [Str ''2026-01-01T12:00:00'', Str ''menu1.png'', Str ''Cafe X'',
                  Str ''Coffee'', Float 3.5, Str ''Beverage'', Str [], Str ''Cafe'',
                  Float 4.2, Str ''Hameenkatu 1'']],
         stdout =
           [Watching_folder ''images_watchfolder'', Created ''menus-async.csv'',
            Processing_existing 2, Processing ''broken.png'', Processing ''menu1.png'',
            Agent1_extracting, Agent1_extracting, Agent2_enriching ''Cafe X'',
            Searching_web ''Cafe X'',
            Error_processing ''broken.png'' (Exception ''timeout''),
            Restaurant_line ''Cafe X'', Rating_line (Some 4.2),
            Address_line ''Hameenkatu 1'', Cuisine_line ''Cafe'',
            Item_line ''Coffee'' 3.5 ''Beverage'' [], Saved_to ''menus-async.csv''],
         files_read = [''menu1.png'', ''broken.png''],
         clock_reads = 1\<rparr>)"
  by code_simp

end
